theory Spec2Isabelle
  imports Complex_Main "HOL-Library.Word"
begin

section \<open>Values shared by the ACME core (acme/api/api.go)\<close>

text \<open>
  Go's \<open>error\<close> interface, restricted to the dynamic types that api.go tells apart:
  \<open>*acme.NonceError\<close> (the CA's bad-nonce problem document), any other CA problem
  document, and plain errors built with \<open>errors.New\<close> or \<open>fmt.Errorf\<close>. The carried
  string is what \<open>err.Error()\<close> prints.
\<close>

datatype error = NonceError string | ProblemDetails string | ErrorString string

fun Error :: "error \<Rightarrow> string" where
  "Error (NonceError s) = s"
| "Error (ProblemDetails s) = s"
| "Error (ErrorString s) = s"

text \<open>The type switch \<open>case *acme.NonceError\<close> of retrievablePost.\<close>

fun is_NonceError :: "error \<Rightarrow> bool" where
  "is_NonceError (NonceError _) = True"
| "is_NonceError _ = False"

text \<open>\<open>*http.Response\<close>: a nil pointer is \<open>None\<close>; the header is an association list.\<close>

record Response =
  StatusCode :: int
  Header :: "(string \<times> string) list"

definition Header_Get :: "(string \<times> string) list \<Rightarrow> string \<Rightarrow> string" where
  "Header_Get h k = (case map_of h k of None \<Rightarrow> [] | Some v \<Rightarrow> v)"

text \<open>
  Modelled from the spec: the declaration of the type \<open>acme.Directory\<close> (package acme)
  is missing. The spec lists it as the CA-advertised map of resource kind to URL: new-nonce,
  new-account, new-order, revoke-cert, key-change, and the optional
  external-account-required flag and terms of service of its meta part.
\<close>

record Directory =
  NewNonceURL :: string
  NewAccountURL :: string
  NewOrderURL :: string
  RevokeCertURL :: string
  KeyChangeURL :: string
  TermsOfService :: string
  ExternalAccountRequired :: bool

text \<open>\<open>crypto.PrivateKey\<close> is an empty interface; the key material is an opaque number.\<close>

datatype PrivateKey = RSAPrivateKey nat | ECDSAPrivateKey nat | OtherKey nat

text \<open>\<open>sender.Doer\<close>: the HTTP client handle and the user agent it sends.\<close>

record Doer =
  httpClient :: nat
  userAgent :: string

text \<open>\<open>nonces.Manager\<close>: the pool of unused nonces and the CA's new-nonce URL.\<close>

record Manager =
  nonces :: "string list"
  nonceURL :: string

text \<open>\<open>secure.JWS\<close>: the account key and the CA-assigned key identifier.\<close>

record JWS =
  privKey :: PrivateKey
  kid :: string

text \<open>
  The struct \<open>Core\<close>. The five service fields alias \<open>common\<close>, which points back to the
  Core itself; they carry no data of their own and are left out.
\<close>

record Core =
  doer :: Doer
  nonceManager :: Manager
  jws :: JWS
  directory :: Directory
  HTTPClient :: nat

section \<open>The outside world\<close>

text \<open>
  What api.go calls but does not define: the transport, the signing primitive, the
  JWK thumbprint, the time each attempt takes and the random source of the backoff
  library. Each is a function of the number of calls made before, so that a CA may
  answer differently on each request.
\<close>

record env =
  doer_Get :: "string \<Rightarrow> Directory \<times> error option"
  doer_Post :: "nat \<Rightarrow> string \<Rightarrow> string \<Rightarrow> Response option \<times> error option"
  fetch_nonce :: "nat \<Rightarrow> string \<Rightarrow> error + string"
  sign :: "PrivateKey \<Rightarrow> string \<Rightarrow> string \<Rightarrow> string \<Rightarrow> string \<Rightarrow> error + string"
  Thumbprint :: "PrivateKey \<Rightarrow> error + string"
  attempt_time :: "nat \<Rightarrow> nat"
  rand_Int63n :: "nat \<Rightarrow> nat"

text \<open>
  The observable effects: the clock in nanoseconds, every request handed to the
  transport (URL and body, oldest first), and the counts of nonce fetches, calls of
  the signing primitive, attempts and random draws.
\<close>

record world =
  clock :: int
  requests :: "(string \<times> string) list"
  nonce_fetches :: nat
  signatures :: nat
  attempts :: nat
  draws :: nat

section \<open>Construction: getDirectory and New\<close>

text \<open>
  \<open>do.Get(caDirURL, &dir)\<close> decodes into \<open>dir\<close> and returns an error or nil. The \<open>%v\<close>
  verb prints \<open>err.Error()\<close>.
\<close>

definition getDirectory :: "env \<Rightarrow> string \<Rightarrow> Directory \<times> error option" where
  "getDirectory e caDirURL =
     (case doer_Get e caDirURL of
        (dir, Some err) \<Rightarrow>
          (dir, Some (ErrorString (''get directory at '' @ [CHR 0x27] @ caDirURL @ [CHR 0x27]
                                    @ '': '' @ Error err)))
      | (dir, None) \<Rightarrow>
          if NewAccountURL dir = [] then
            (dir, Some (ErrorString ''directory missing new registration URL''))
          else if NewOrderURL dir = [] then
            (dir, Some (ErrorString ''directory missing new order URL''))
          else (dir, None))"

text \<open>\<open>sender.NewDoer\<close>, \<open>nonces.NewManager\<close> and \<open>secure.NewJWS\<close> only store their arguments.\<close>

definition NewDoer :: "nat \<Rightarrow> string \<Rightarrow> Doer" where
  "NewDoer client ua = \<lparr>httpClient = client, userAgent = ua\<rparr>"

definition NewManager :: "string \<Rightarrow> Manager" where
  "NewManager url = \<lparr>nonces = [], nonceURL = url\<rparr>"

definition NewJWS :: "PrivateKey \<Rightarrow> string \<Rightarrow> JWS" where
  "NewJWS key k = \<lparr>privKey = key, kid = k\<rparr>"

definition New :: "env \<Rightarrow> nat \<Rightarrow> string \<Rightarrow> string \<Rightarrow> string \<Rightarrow> PrivateKey \<Rightarrow> error + Core" where
  "New e client ua caDirURL k privateKey =
     (case getDirectory e caDirURL of
        (_, Some err) \<Rightarrow> Inl err
      | (dir, None) \<Rightarrow>
          Inr \<lparr>doer = NewDoer client ua,
               nonceManager = NewManager (NewNonceURL dir),
               jws = NewJWS privateKey k,
               directory = dir,
               HTTPClient = client\<rparr>)"

definition GetDirectory :: "Core \<Rightarrow> Directory" where
  "GetDirectory a = directory a"

section \<open>Nonce manager and signer\<close>

text \<open>
  Modelled from the spec: the methods of \<open>nonces.Manager\<close> and the function
  \<open>nonces.GetFromResponse\<close> (package nonces) are missing. The spec: Pop returns a
  pooled nonce if available, else performs a fresh-nonce fetch against the CA's dedicated
  endpoint and fails only if that fetch fails; Push inserts a token into the pool; every
  response carries the nonce in a dedicated header (\<open>Replay-Nonce\<close> in ACME), and a
  response without one yields none.
\<close>

definition Pop :: "env \<Rightarrow> Manager \<Rightarrow> world \<Rightarrow> (error + string) \<times> Manager \<times> world" where
  "Pop e n w =
     (if nonces n = [] then
        (fetch_nonce e (nonce_fetches w) (nonceURL n), n,
         w\<lparr>nonce_fetches := Suc (nonce_fetches w)\<rparr>)
      else (Inr (last (nonces n)), n\<lparr>nonces := butlast (nonces n)\<rparr>, w))"

definition Push :: "Manager \<Rightarrow> string \<Rightarrow> Manager" where
  "Push n nonce = n\<lparr>nonces := nonces n @ [nonce]\<rparr>"

definition GetFromResponse :: "Response option \<Rightarrow> string \<times> error option" where
  "GetFromResponse resp =
     (case resp of
        None \<Rightarrow> ([], Some (ErrorString ''nil response''))
      | Some r \<Rightarrow>
          (let nonce = Header_Get (Header r) ''Replay-Nonce''
           in if nonce = [] then
                ([], Some (ErrorString ''server did not respond with a proper nonce header''))
              else (nonce, None)))"

text \<open>
  Modelled from the spec: the method \<open>secure.JWS.SignContent\<close> (package secure) is
  missing. The spec: it pops one nonce, builds a protected header binding algorithm,
  URL, nonce and key or kid, signs payload and header with the account private key, and
  returns the serialized envelope. The JWS shares the Core's nonce manager, which is passed in and
  handed back. The result stands for \<open>signedContent.FullSerialize()\<close>.
\<close>

definition SignContent ::
  "env \<Rightarrow> JWS \<Rightarrow> Manager \<Rightarrow> world \<Rightarrow> string \<Rightarrow> string \<Rightarrow> (error + string) \<times> Manager \<times> world" where
  "SignContent e j n w url content =
     (case Pop e n w of
        (Inl err, n', w') \<Rightarrow> (Inl err, n', w')
      | (Inr nonce, n', w') \<Rightarrow>
          (sign e (privKey j) (kid j) nonce url content, n',
           w'\<lparr>signatures := Suc (signatures w')\<rparr>))"

text \<open>
  Modelled from the spec: the method \<open>secure.JWS.GetKeyAuthorization\<close> (package secure)
  is missing. The spec: the key authorization is the token, a dot, and the
  base64url-encoded SHA-256 thumbprint of the account key; \<open>Thumbprint\<close> of the environment computes
  that encoded thumbprint or fails.
\<close>

definition JWS_GetKeyAuthorization :: "env \<Rightarrow> JWS \<Rightarrow> string \<Rightarrow> string \<times> error option" where
  "JWS_GetKeyAuthorization e j token =
     (case Thumbprint e (privKey j) of
        Inl err \<Rightarrow> ([], Some err)
      | Inr keyThumb \<Rightarrow> (token @ ''.'' @ keyThumb, None))"

section \<open>signedPost\<close>

definition signedPost ::
  "env \<Rightarrow> Core \<Rightarrow> world \<Rightarrow> string \<Rightarrow> string
     \<Rightarrow> (Response option \<times> error option) \<times> Core \<times> world" where
  "signedPost e a w uri content =
     (case SignContent e (jws a) (nonceManager a) w uri content of
        (Inl err, n1, w1) \<Rightarrow>
          ((None, Some (ErrorString
             (''failed to post JWS message -> failed to sign content -> '' @ Error err))),
           a\<lparr>nonceManager := n1\<rparr>, w1)
      | (Inr signedBody, n1, w1) \<Rightarrow>
          (let (resp, err) = doer_Post e (length (requests w1)) uri signedBody;
               w2 = w1\<lparr>requests := requests w1 @ [(uri, signedBody)]\<rparr>;
               (nonce, nonceErr) = GetFromResponse resp;
               n2 = (if nonceErr = None then Push n1 nonce else n1)
           in ((resp, err), a\<lparr>nonceManager := n2\<rparr>, w2)))"

definition GetKeyAuthorization :: "env \<Rightarrow> Core \<Rightarrow> string \<Rightarrow> string \<times> error option" where
  "GetKeyAuthorization e a token = JWS_GetKeyAuthorization e (jws a) token"

section \<open>The backoff library (github.com/cenkalti/backoff)\<close>

text \<open>
  The library is a dependency, not part of the repository; this is its exponential
  policy and its retry loop as the import path without a version suffix provides them.
  \<open>time.Duration\<close> counts nanoseconds. The library computes the jitter and the growth in
  float64; the model uses exact rationals, which agree on the intervals that occur here.
\<close>

type_synonym Duration = int

definition Millisecond :: Duration where
  "Millisecond = 1000000"

definition Second :: Duration where
  "Second = 1000000000"

definition Stop :: Duration where
  "Stop = - 1"

record ExponentialBackOff =
  InitialInterval :: Duration
  RandomizationFactor :: rat
  Multiplier :: rat
  MaxInterval :: Duration
  MaxElapsedTime :: Duration
  currentInterval :: Duration
  startTime :: int

definition Reset :: "ExponentialBackOff \<Rightarrow> world \<Rightarrow> ExponentialBackOff" where
  "Reset b w = b\<lparr>currentInterval := InitialInterval b, startTime := clock w\<rparr>"

definition NewExponentialBackOff :: "world \<Rightarrow> ExponentialBackOff" where
  "NewExponentialBackOff w =
     Reset \<lparr>InitialInterval = 500 * Millisecond, RandomizationFactor = 1 / 2,
            Multiplier = 3 / 2, MaxInterval = 60 * Second,
            MaxElapsedTime = 15 * 60 * Second, currentInterval = 0, startTime = 0\<rparr> w"

definition GetElapsedTime :: "ExponentialBackOff \<Rightarrow> world \<Rightarrow> Duration" where
  "GetElapsedTime b w = clock w - startTime b"

text \<open>\<open>rand.Float64()\<close>: a 53-bit draw scaled into the half-open unit interval.\<close>

definition Float64 :: "env \<Rightarrow> world \<Rightarrow> rat \<times> world" where
  "Float64 e w =
     (of_nat (rand_Int63n e (draws w) mod 2 ^ 53) / 2 ^ 53, w\<lparr>draws := Suc (draws w)\<rparr>)"

text \<open>The conversion \<open>time.Duration(x)\<close> of a float truncates toward zero.\<close>

definition trunc :: "rat \<Rightarrow> int" where
  "trunc x = (if 0 \<le> x then \<lfloor>x\<rfloor> else \<lceil>x\<rceil>)"

definition getRandomValueFromInterval :: "rat \<Rightarrow> rat \<Rightarrow> Duration \<Rightarrow> Duration" where
  "getRandomValueFromInterval randomizationFactor random cur =
     (let delta = randomizationFactor * of_int cur;
          minInterval = of_int cur - delta;
          maxInterval = of_int cur + delta
      in trunc (minInterval + random * (maxInterval - minInterval + 1)))"

definition incrementCurrentInterval :: "ExponentialBackOff \<Rightarrow> ExponentialBackOff" where
  "incrementCurrentInterval b =
     (if of_int (currentInterval b) \<ge> of_int (MaxInterval b) / Multiplier b then
        b\<lparr>currentInterval := MaxInterval b\<rparr>
      else b\<lparr>currentInterval := trunc (of_int (currentInterval b) * Multiplier b)\<rparr>)"

definition NextBackOff ::
  "env \<Rightarrow> ExponentialBackOff \<Rightarrow> world \<Rightarrow> Duration \<times> ExponentialBackOff \<times> world" where
  "NextBackOff e b w =
     (if MaxElapsedTime b \<noteq> 0 \<and> GetElapsedTime b w > MaxElapsedTime b then (Stop, b, w)
      else
        (let (random, w') = Float64 e w
         in (getRandomValueFromInterval (RandomizationFactor b) random (currentInterval b),
             incrementCurrentInterval b, w')))"

text \<open>
  \<open>backoff.WithContext\<close>: the policy stops once the context is cancelled. The flag \<open>done\<close>
  is the state of the context made by \<open>context.WithCancel\<close>.
\<close>

definition Context_NextBackOff ::
  "env \<Rightarrow> ExponentialBackOff \<Rightarrow> bool \<Rightarrow> world \<Rightarrow> Duration \<times> ExponentialBackOff \<times> world" where
  "Context_NextBackOff e b done w = (if done then (Stop, b, w) else NextBackOff e b w)"

section \<open>retrievablePost and post\<close>

text \<open>
  The closure \<open>operation\<close>: one attempt. It counts the attempt, lets the time the attempt
  takes pass, and cancels the context on any error that is not a \<open>*acme.NonceError\<close>.
  The result is the captured \<open>resp\<close>, the returned error, and the context's state.
\<close>

definition operation ::
  "env \<Rightarrow> string \<Rightarrow> string \<Rightarrow> bool \<Rightarrow> Core \<Rightarrow> world
     \<Rightarrow> Response option \<times> error option \<times> bool \<times> Core \<times> world" where
  "operation e uri content done a w =
     (case signedPost e a w uri content of
        ((resp, err), a1, w1) \<Rightarrow>
          (let w2 = w1\<lparr>attempts := Suc (attempts w1),
                       clock := clock w1 + int (attempt_time e (attempts w1))\<rparr>
           in case err of
                Some er \<Rightarrow>
                  if is_NonceError er then (resp, Some er, done, a1, w2)
                  else (resp, Some er, True, a1, w2)
              | None \<Rightarrow> (resp, None, done, a1, w2)))"

text \<open>A timer set to a duration of zero or less fires at once.\<close>

definition sleep :: "Duration \<Rightarrow> world \<Rightarrow> world" where
  "sleep d w = w\<lparr>clock := clock w + max 0 d\<rparr>"

text \<open>
  The loop of \<open>backoff.RetryNotify\<close>: run the operation; return on success; ask the
  policy for the next wait and return the operation's error if it says \<open>Stop\<close>; wait for
  the timer or the end of the context, whichever comes first. The loop has no bound of
  its own, so a run that never returns is \<open>None\<close>.
\<close>

partial_function (option) Retry_loop ::
  "env \<Rightarrow> string \<Rightarrow> string \<Rightarrow> ExponentialBackOff \<Rightarrow> bool \<Rightarrow> Core \<Rightarrow> world
     \<Rightarrow> (Response option \<times> error option \<times> Core \<times> world) option" where
  "Retry_loop e uri content b done a w =
     (case operation e uri content done a w of
        (resp, None, done1, a1, w1) \<Rightarrow> Some (resp, None, a1, w1)
      | (resp, Some err, done1, a1, w1) \<Rightarrow>
          (case Context_NextBackOff e b done1 w1 of
             (next, b1, w2) \<Rightarrow>
               if next = Stop then Some (resp, Some err, a1, w2)
               else if done1 then Some (resp, Some err, a1, w2)
               else Retry_loop e uri content b1 done1 a1 (sleep next w2)))"

definition Retry ::
  "env \<Rightarrow> string \<Rightarrow> string \<Rightarrow> ExponentialBackOff \<Rightarrow> bool \<Rightarrow> Core \<Rightarrow> world
     \<Rightarrow> (Response option \<times> error option \<times> Core \<times> world) option" where
  "Retry e uri content b done a w = Retry_loop e uri content (Reset b w) done a w"

text \<open>The policy that retrievablePost configures, before \<open>Retry\<close> resets it.\<close>

definition bo :: "world \<Rightarrow> ExponentialBackOff" where
  "bo w = (NewExponentialBackOff w)
            \<lparr>InitialInterval := 200 * Millisecond,
             MaxInterval := 5 * Second,
             MaxElapsedTime := 20 * Second\<rparr>"

definition retrievablePost ::
  "env \<Rightarrow> Core \<Rightarrow> world \<Rightarrow> string \<Rightarrow> string
     \<Rightarrow> ((Response option \<times> error option) \<times> Core \<times> world) option" where
  "retrievablePost e a w uri content =
     (case Retry e uri content (bo w) False a w of
        None \<Rightarrow> None
      | Some (resp, Some err, a', w') \<Rightarrow> Some ((None, Some err), a', w')
      | Some (resp, None, a', w') \<Rightarrow> Some ((resp, None), a', w'))"

text \<open>
  \<open>json.Marshal\<close> is a parameter: it maps the request body to its encoding or fails.
\<close>

definition post ::
  "env \<Rightarrow> ('b \<Rightarrow> error + string) \<Rightarrow> Core \<Rightarrow> world \<Rightarrow> string \<Rightarrow> 'b
     \<Rightarrow> ((Response option \<times> error option) \<times> Core \<times> world) option" where
  "post e json_Marshal a w uri reqBody =
     (case json_Marshal reqBody of
        Inl err \<Rightarrow> Some ((None, Some (ErrorString ''failed to marshal message'')), a, w)
      | Inr content \<Rightarrow> retrievablePost e a w uri content)"

definition postAsGet ::
  "env \<Rightarrow> Core \<Rightarrow> world \<Rightarrow> string
     \<Rightarrow> ((Response option \<times> error option) \<times> Core \<times> world) option" where
  "postAsGet e a w uri = retrievablePost e a w uri []"

section \<open>The DNS provider registry (providers/dns/dns_providers.go)\<close>

text \<open>
  The switch of NewDNSChallengeProviderByName, case by case in the order of the source:
  the name, then the package and the function that the case calls. Go rejects a switch
  with two equal constant cases, and the first matching entry of the list is the one
  \<open>map_of\<close> finds.
\<close>

definition providers :: "(string \<times> (string \<times> string)) list" where
  "providers =
    [(''acme-dns'', (''acmedns'', ''NewDNSProvider'')),
     (''alidns'', (''alidns'', ''NewDNSProvider'')),
     (''azure'', (''azure'', ''NewDNSProvider'')),
     (''auroradns'', (''auroradns'', ''NewDNSProvider'')),
     (''bindman'', (''bindman'', ''NewDNSProvider'')),
     (''bluecat'', (''bluecat'', ''NewDNSProvider'')),
     (''cloudflare'', (''cloudflare'', ''NewDNSProvider'')),
     (''cloudns'', (''cloudns'', ''NewDNSProvider'')),
     (''cloudxns'', (''cloudxns'', ''NewDNSProvider'')),
     (''conoha'', (''conoha'', ''NewDNSProvider'')),
     (''designate'', (''designate'', ''NewDNSProvider'')),
     (''digitalocean'', (''digitalocean'', ''NewDNSProvider'')),
     (''dnsimple'', (''dnsimple'', ''NewDNSProvider'')),
     (''dnsmadeeasy'', (''dnsmadeeasy'', ''NewDNSProvider'')),
     (''dnspod'', (''dnspod'', ''NewDNSProvider'')),
     (''dode'', (''dode'', ''NewDNSProvider'')),
     (''dreamhost'', (''dreamhost'', ''NewDNSProvider'')),
     (''duckdns'', (''duckdns'', ''NewDNSProvider'')),
     (''dyn'', (''dyn'', ''NewDNSProvider'')),
     (''fastdns'', (''fastdns'', ''NewDNSProvider'')),
     (''easydns'', (''easydns'', ''NewDNSProvider'')),
     (''exec'', (''exec'', ''NewDNSProvider'')),
     (''exoscale'', (''exoscale'', ''NewDNSProvider'')),
     (''gandi'', (''gandi'', ''NewDNSProvider'')),
     (''gandiv5'', (''gandiv5'', ''NewDNSProvider'')),
     (''glesys'', (''glesys'', ''NewDNSProvider'')),
     (''gcloud'', (''gcloud'', ''NewDNSProvider'')),
     (''godaddy'', (''godaddy'', ''NewDNSProvider'')),
     (''hostingde'', (''hostingde'', ''NewDNSProvider'')),
     (''httpreq'', (''httpreq'', ''NewDNSProvider'')),
     (''iij'', (''iij'', ''NewDNSProvider'')),
     (''inwx'', (''inwx'', ''NewDNSProvider'')),
     (''joker'', (''joker'', ''NewDNSProvider'')),
     (''lightsail'', (''lightsail'', ''NewDNSProvider'')),
     (''linode'', (''linode'', ''NewDNSProvider'')),
     (''linodev4'', (''linodev4'', ''NewDNSProvider'')),
     (''manual'', (''dns01'', ''NewDNSProviderManual'')),
     (''mydnsjp'', (''mydnsjp'', ''NewDNSProvider'')),
     (''namecheap'', (''namecheap'', ''NewDNSProvider'')),
     (''namedotcom'', (''namedotcom'', ''NewDNSProvider'')),
     (''netcup'', (''netcup'', ''NewDNSProvider'')),
     (''nifcloud'', (''nifcloud'', ''NewDNSProvider'')),
     (''ns1'', (''ns1'', ''NewDNSProvider'')),
     (''oraclecloud'', (''oraclecloud'', ''NewDNSProvider'')),
     (''otc'', (''otc'', ''NewDNSProvider'')),
     (''ovh'', (''ovh'', ''NewDNSProvider'')),
     (''pdns'', (''pdns'', ''NewDNSProvider'')),
     (''rackspace'', (''rackspace'', ''NewDNSProvider'')),
     (''route53'', (''route53'', ''NewDNSProvider'')),
     (''rfc2136'', (''rfc2136'', ''NewDNSProvider'')),
     (''sakuracloud'', (''sakuracloud'', ''NewDNSProvider'')),
     (''stackpath'', (''stackpath'', ''NewDNSProvider'')),
     (''selectel'', (''selectel'', ''NewDNSProvider'')),
     (''transip'', (''transip'', ''NewDNSProvider'')),
     (''vegadns'', (''vegadns'', ''NewDNSProvider'')),
     (''versio'', (''versio'', ''NewDNSProvider'')),
     (''vultr'', (''vultr'', ''NewDNSProvider'')),
     (''vscale'', (''vscale'', ''NewDNSProvider'')),
     (''zoneee'', (''zoneee'', ''NewDNSProvider''))]"

text \<open>
  The constructors themselves live in the provider packages; \<open>call\<close> stands for
  calling one of them and yields the provider or the constructor's error.
\<close>

definition NewDNSChallengeProviderByName ::
  "(string \<times> string \<Rightarrow> 'p option \<times> error option) \<Rightarrow> string \<Rightarrow> 'p option \<times> error option" where
  "NewDNSChallengeProviderByName call name =
     (case map_of providers name of
        Some ctor \<Rightarrow> call ctor
      | None \<Rightarrow> (None, Some (ErrorString (''unrecognized DNS provider: '' @ name))))"

text \<open>The package that carries a provider's name: the name without its hyphens.\<close>

definition package_of :: "string \<Rightarrow> string" where
  "package_of name = filter (\<lambda>c. c \<noteq> CHR ''-'') name"

section \<open>The DNS-01 set-up of the command line (cmd, setupDNS)\<close>

text \<open>
  The global flags that setupDNS reads from \<open>cli.Context\<close>: \<open>GlobalString("dns")\<close>,
  \<open>GlobalStringSlice("dns.resolvers")\<close>, \<open>GlobalBool("dns.disable-cp")\<close>,
  \<open>GlobalIsSet("dns-timeout")\<close> and \<open>GlobalInt("dns-timeout")\<close>. Go's \<open>int\<close> and
  \<open>time.Duration\<close> are 64-bit machine integers here, and their product wraps.
\<close>

record Context =
  dns :: string
  dns_resolvers :: "string list"
  dns_disable_cp :: bool
  dns_timeout_IsSet :: bool
  dns_timeout :: "64 word"

text \<open>
  Modelled from the spec: the options of package dns01 and \<open>dns01.CondOption\<close> are
  missing. The spec's configuration surface names them: extra recursive nameservers to
  query, disabling the full-propagation requirement, and the DNS timeout. \<open>CondOption\<close>
  yields the given option when its condition holds and an option without effect otherwise.
\<close>

datatype ChallengeOption =
    AddRecursiveNameservers "string list"
  | DisableCompletePropagationRequirement
  | AddDNSTimeout "64 word"
  | NoOp

definition CondOption :: "bool \<Rightarrow> ChallengeOption \<Rightarrow> ChallengeOption" where
  "CondOption condition opt = (if \<not> condition then NoOp else opt)"

definition time_Second :: "64 word" where
  "time_Second = 1000000000"

text \<open>\<open>log.Fatal\<close> ends the process; otherwise the DNS-01 provider and its options are set.\<close>

datatype 'p outcome = Fatal error | SetDNS01 "'p option" "ChallengeOption list"

text \<open>
  \<open>ParseNameservers\<close> and \<open>client.Challenge.SetDNS01Provider\<close> are parameters: the first
  maps the resolver list to nameserver addresses, the second returns an error or nil.
\<close>

definition setupDNS ::
  "(string \<times> string \<Rightarrow> 'p option \<times> error option) \<Rightarrow> (string list \<Rightarrow> string list)
     \<Rightarrow> ('p option \<Rightarrow> ChallengeOption list \<Rightarrow> error option) \<Rightarrow> Context \<Rightarrow> 'p outcome" where
  "setupDNS call ParseNameservers SetDNS01Provider ctx =
     (case NewDNSChallengeProviderByName call (dns ctx) of
        (_, Some err) \<Rightarrow> Fatal err
      | (provider, None) \<Rightarrow>
          (let servers = dns_resolvers ctx;
               opts =
                 [CondOption (length servers > 0)
                    (AddRecursiveNameservers (ParseNameservers (dns_resolvers ctx))),
                  CondOption (dns_disable_cp ctx) DisableCompletePropagationRequirement,
                  CondOption (dns_timeout_IsSet ctx)
                    (AddDNSTimeout (dns_timeout ctx * time_Second))]
           in case SetDNS01Provider provider opts of
                Some err \<Rightarrow> Fatal err
              | None \<Rightarrow> SetDNS01 provider opts))"

section \<open>Example environments\<close>

text \<open>A directory that advertises every URL, one without the new-order URL.\<close>

definition dir0 :: Directory where
  "dir0 = \<lparr>NewNonceURL = ''https://ca/nonce'', NewAccountURL = ''https://ca/acct'',
     NewOrderURL = ''https://ca/order'', RevokeCertURL = ''https://ca/revoke'',
     KeyChangeURL = ''https://ca/key'', TermsOfService = [],
     ExternalAccountRequired = False\<rparr>"

definition dir_no_order :: Directory where
  "dir_no_order = dir0\<lparr>NewOrderURL := []\<rparr>"

text \<open>
  A mock CA that answers every POST with the bad-nonce problem and a fresh nonce in the
  header; each attempt takes \<open>t\<close> nanoseconds, and the random source always draws zero.
\<close>

definition badNonceCA :: "nat \<Rightarrow> env" where
  "badNonceCA t =
     \<lparr>doer_Get = (\<lambda>url. (dir0, None)),
      doer_Post = (\<lambda>k uri body.
         (Some \<lparr>StatusCode = 400, Header = [(''Replay-Nonce'', ''fresh'')]\<rparr>,
          Some (NonceError ''urn:ietf:params:acme:error:badNonce''))),
      fetch_nonce = (\<lambda>k url. Inr ''first''),
      sign = (\<lambda>key k nonce url content. Inr (nonce @ ''|'' @ url @ ''|'' @ content)),
      Thumbprint = (\<lambda>key. Inr ''thumb''),
      attempt_time = (\<lambda>k. t),
      rand_Int63n = (\<lambda>k. 0)\<rparr>"

text \<open>The same CA with another answer to every POST, and one whose account key cannot sign.\<close>

definition answeringCA :: "Response option \<times> error option \<Rightarrow> env" where
  "answeringCA r = (badNonceCA 0)\<lparr>doer_Post := (\<lambda>k uri body. r)\<rparr>"

definition brokenKeyCA :: env where
  "brokenKeyCA = (badNonceCA 0)
     \<lparr>sign := (\<lambda>key k nonce url content. Inl (ErrorString ''unsupported key type''))\<rparr>"


definition core0 :: Core where
  "core0 = \<lparr>doer = NewDoer 0 ''lego'', nonceManager = NewManager ''https://ca/nonce'',
     jws = NewJWS (ECDSAPrivateKey 1) ''kid'', directory = dir0, HTTPClient = 0\<rparr>"

definition world0 :: world where
  "world0 = \<lparr>clock = 0, requests = [], nonce_fetches = 0, signatures = 0, attempts = 0,
     draws = 0\<rparr>"

text \<open>What no request changes in a Core: directory, signer, transport and client.\<close>

definition same_identity :: "Core \<Rightarrow> Core \<Rightarrow> bool" where
  "same_identity a a' \<longleftrightarrow>
     directory a' = directory a \<and> jws a' = jws a \<and> doer a' = doer a \<and> HTTPClient a' = HTTPClient a"

text \<open>
  The state of the policy inside retrievablePost's loop: the library's jitter and growth
  factors, the configured cap and budget, and a current interval between the initial
  interval and the cap.
\<close>

definition policy :: "ExponentialBackOff \<Rightarrow> bool" where
  "policy b \<longleftrightarrow>
     RandomizationFactor b = 1 / 2 \<and> Multiplier b = 3 / 2 \<and>
     MaxInterval b = 5 * Second \<and> MaxElapsedTime b = 20 * Second \<and>
     200 * Millisecond \<le> currentInterval b \<and> currentInterval b \<le> 5 * Second"

section \<open>Reasoning about the retry loop\<close>

lemma Retry_loop_cases:
  assumes "Retry_loop e uri content b d a w = Some y"
  obtains
    (success) resp d1 a1 w1 where
      "operation e uri content d a w = (resp, None, d1, a1, w1)" "y = (resp, None, a1, w1)"
  | (stop) resp err d1 a1 w1 nxt b1 w2 where
      "operation e uri content d a w = (resp, Some err, d1, a1, w1)"
      "Context_NextBackOff e b d1 w1 = (nxt, b1, w2)" "nxt = Stop \<or> d1"
      "y = (resp, Some err, a1, w2)"
  | (again) resp err d1 a1 w1 nxt b1 w2 where
      "operation e uri content d a w = (resp, Some err, d1, a1, w1)"
      "Context_NextBackOff e b d1 w1 = (nxt, b1, w2)" "nxt \<noteq> Stop" "\<not> d1"
      "Retry_loop e uri content b1 d1 a1 (sleep nxt w2) = Some y"
proof -
  obtain resp err d1 a1 w1 where op: "operation e uri content d a w = (resp, err, d1, a1, w1)"
    by (metis prod_cases5)
  obtain nxt b1 w2 where nb: "Context_NextBackOff e b d1 w1 = (nxt, b1, w2)"
    by (metis prod_cases3)
  from assms have body: "(case operation e uri content d a w of
      (resp, None, done1, a1, w1) \<Rightarrow> Some (resp, None, a1, w1)
      | (resp, Some err, done1, a1, w1) \<Rightarrow>
          case Context_NextBackOff e b done1 w1 of
          (next, b1, w2) \<Rightarrow>
            if next = Stop then Some (resp, Some err, a1, w2)
            else if done1 then Some (resp, Some err, a1, w2)
                 else Retry_loop e uri content b1 done1 a1 (sleep next w2)) = Some y"
    by (subst (asm) Retry_loop.simps) 
  show thesis
  proof (cases err)
    case None
    with body op show ?thesis by (intro success [of resp d1 a1 w1]) auto
  next
    case (Some er)
    show ?thesis
    proof (cases "nxt = Stop \<or> d1")
      case True
      with body op nb Some show ?thesis
        by (intro stop [of resp er d1 a1 w1 nxt b1 w2]) (auto split: if_splits)
    next
      case False
      with body op nb Some show ?thesis
        by (intro again [of resp er d1 a1 w1 nxt b1 w2]) (auto split: if_splits)
    qed
  qed
qed

lemma Retry_loop_induct [consumes 1, case_names success stop again]:
  assumes run: "Retry_loop e uri content b d a w = Some y"
    and success: "\<And>b d a w resp d1 a1 w1.
      operation e uri content d a w = (resp, None, d1, a1, w1) \<Longrightarrow> P b d a w (resp, None, a1, w1)"
    and stop: "\<And>b d a w resp err d1 a1 w1 nxt b1 w2.
      operation e uri content d a w = (resp, Some err, d1, a1, w1) \<Longrightarrow>
      Context_NextBackOff e b d1 w1 = (nxt, b1, w2) \<Longrightarrow> nxt = Stop \<or> d1 \<Longrightarrow>
      P b d a w (resp, Some err, a1, w2)"
    and again: "\<And>b d a w resp err d1 a1 w1 nxt b1 w2 y.
      operation e uri content d a w = (resp, Some err, d1, a1, w1) \<Longrightarrow>
      Context_NextBackOff e b d1 w1 = (nxt, b1, w2) \<Longrightarrow> nxt \<noteq> Stop \<Longrightarrow> \<not> d1 \<Longrightarrow>
      Retry_loop e uri content b1 d1 a1 (sleep nxt w2) = Some y \<Longrightarrow>
      P b1 d1 a1 (sleep nxt w2) y \<Longrightarrow> P b d a w y"
  shows "P b d a w y"
proof -
  let ?Q = "\<lambda>e' uri' content' b d a w y.
        e' = e \<and> uri' = uri \<and> content' = content \<and> Retry_loop e uri content b d a w = Some y
          \<longrightarrow> P b d a w y"
  have "?Q e uri content b d a w y"
  proof (rule Retry_loop.raw_induct [where P = ?Q, OF _ run])
    fix f e' uri' content' b d a w y
    assume IH: "\<And>e' uri' content' b d a w y. f e' uri' content' b d a w = Some y \<Longrightarrow>
        ?Q e' uri' content' b d a w y"
      and body: "(case operation e' uri' content' d a w of
        (resp, None, done1, a1, w1) \<Rightarrow> Some (resp, None, a1, w1)
        | (resp, Some err, done1, a1, w1) \<Rightarrow>
            case Context_NextBackOff e' b done1 w1 of
            (next, b1, w2) \<Rightarrow>
              if next = Stop then Some (resp, Some err, a1, w2)
              else if done1 then Some (resp, Some err, a1, w2)
                   else f e' uri' content' b1 done1 a1 (sleep next w2)) = Some y"
    show "?Q e' uri' content' b d a w y"
    proof (intro impI, elim conjE)
      assume eqs: "e' = e" "uri' = uri" "content' = content"
        and r: "Retry_loop e uri content b d a w = Some y"
      from r show "P b d a w y"
      proof (cases rule: Retry_loop_cases)
        case (success resp d1 a1 w1)
        then show ?thesis using assms(2) by simp
      next
        case (stop resp err d1 a1 w1 nxt b1 w2)
        then show ?thesis using assms(3) by simp
      next
        case (again resp err d1 a1 w1 nxt b1 w2)
        with body eqs have "f e uri content b1 d1 a1 (sleep nxt w2) = Some y" by simp
        from IH [OF this] again(5) have "P b1 d1 a1 (sleep nxt w2) y" by simp
        with again show ?thesis using assms(4) by blast
      qed
    qed
  qed
  with run show ?thesis by simp
qed

lemma signedPost_directory:
  "signedPost e a w uri content = (r, a', w') \<Longrightarrow> same_identity a a'"
  by (auto simp: same_identity_def signedPost_def Let_def split: prod.splits sum.splits if_splits)

lemma operation_directory:
  "operation e uri content d a w = (resp, err, d', a', w') \<Longrightarrow> same_identity a a'"
  by (auto simp: operation_def Let_def split: prod.splits option.splits if_splits dest: signedPost_directory)

lemma Retry_loop_directory:
  assumes "Retry_loop e uri content b d a w = Some y"
  shows "same_identity a (fst (snd (snd y)))"
  using assms
proof (induction rule: Retry_loop_induct)
  case (success b d a w resp d1 a1 w1)
  then show ?case by (auto dest: operation_directory)
next
  case (stop b d a w resp err d1 a1 w1 nxt b1 w2)
  then show ?case by (auto dest: operation_directory)
next
  case (again b d a w resp err d1 a1 w1 nxt b1 w2 y)
  then show ?case by (auto dest!: operation_directory simp: same_identity_def)
qed

section \<open>The policy in the loop, and why the loop returns\<close>

lemma policy_Reset_bo: "policy (Reset (bo w) w)"
  by (simp add: policy_def Reset_def bo_def NewExponentialBackOff_def Millisecond_def Second_def)

lemma startTime_Reset_bo: "startTime (Reset (bo w) w) = clock w"
  by (simp add: Reset_def)

lemma policy_increment:
  assumes "policy b"
  shows "policy (incrementCurrentInterval b)"
    and "startTime (incrementCurrentInterval b) = startTime b"
proof -
  let ?c = "currentInterval b"
  from assms have c: "200000000 \<le> ?c" "?c \<le> 5000000000"
    and m: "Multiplier b = 3 / 2" "MaxInterval b = 5 * Second"
    by (simp_all add: policy_def Millisecond_def Second_def)
  have nonneg: "(0::rat) \<le> of_int ?c * (3 / 2)" using c by simp
  show "startTime (incrementCurrentInterval b) = startTime b"
    by (simp add: incrementCurrentInterval_def)
  show "policy (incrementCurrentInterval b)"
  proof (cases "of_int ?c \<ge> (of_int (MaxInterval b) / Multiplier b :: rat)")
    case True
    with assms show ?thesis
      by (simp add: incrementCurrentInterval_def policy_def Millisecond_def Second_def)
  next
    case False
    then have lt: "(of_int ?c :: rat) * (3 / 2) < 5000000000"
      using m by (simp add: Second_def field_simps)
    have lo: "200000000 \<le> \<lfloor>(of_int ?c :: rat) * (3 / 2)\<rfloor>"
    proof -
      have "(of_int (200000000::int) :: rat) \<le> of_int ?c * (3 / 2)" using c by simp
      then show ?thesis by (simp add: le_floor_iff)
    qed
    have hi: "\<lfloor>(of_int ?c :: rat) * (3 / 2)\<rfloor> \<le> 5000000000"
    proof -
      have "\<lfloor>(of_int ?c :: rat) * (3 / 2)\<rfloor> \<le> \<lfloor>5000000000 :: rat\<rfloor>"
        using lt by (intro floor_mono) simp
      then show ?thesis by simp
    qed
    from False assms nonneg lo hi show ?thesis
      by (simp add: incrementCurrentInterval_def policy_def trunc_def Millisecond_def Second_def m)
  qed
qed

lemma Float64_range:
  assumes "Float64 e w = (r, w')"
  shows "0 \<le> r" and "r < 1" and "clock w' = clock w"
proof -
  let ?m = "rand_Int63n e (draws w) mod 2 ^ 53"
  from assms have r: "r = of_nat ?m / 2 ^ 53" and w': "w' = w\<lparr>draws := Suc (draws w)\<rparr>"
    by (simp_all add: Float64_def)
  show "0 \<le> r" unfolding r by simp
  have "?m < 2 ^ 53" by simp
  then have "(of_nat ?m :: rat) < of_nat (2 ^ 53)" by (simp only: of_nat_less_iff)
  then show "r < 1" unfolding r by simp
  show "clock w' = clock w" unfolding w' by simp
qed

lemma jitter_at_least:
  assumes "0 \<le> r" and "0 \<le> cur"
  shows "\<lfloor>(of_int cur :: rat) / 2\<rfloor> \<le> getRandomValueFromInterval (1 / 2) r cur"
proof -
  let ?lo = "(of_int cur :: rat) - 1 / 2 * of_int cur"
  let ?hi = "(of_int cur :: rat) + 1 / 2 * of_int cur"
  have lo: "?lo = of_int cur / 2" by simp
  have "0 \<le> r * (?hi - ?lo + 1)" using assms by (intro mult_nonneg_nonneg) simp_all
  then have ge: "of_int cur / 2 \<le> ?lo + r * (?hi - ?lo + 1)" using lo by linarith
  moreover have "(0::rat) \<le> of_int cur / 2" using assms by simp
  ultimately have "0 \<le> ?lo + r * (?hi - ?lo + 1)" by linarith
  then have "getRandomValueFromInterval (1 / 2) r cur = \<lfloor>?lo + r * (?hi - ?lo + 1)\<rfloor>"
    by (simp add: getRandomValueFromInterval_def trunc_def Let_def)
  with floor_mono [OF ge] show ?thesis by simp
qed



lemma signedPost_clock:
  "signedPost e a w uri content = (r, a', w') \<Longrightarrow> clock w' = clock w \<and> attempts w' = attempts w"
  by (auto simp: signedPost_def SignContent_def Pop_def Let_def
      split: prod.splits sum.splits if_splits)

lemma operation_clock:
  assumes "operation e uri content d a w = (resp, err, d1, a1, w1)"
  shows "clock w \<le> clock w1" and "attempts w1 = Suc (attempts w)"
  using assms
  by (auto simp: operation_def Let_def split: prod.splits option.splits if_splits
      dest: signedPost_clock)

lemma Context_NextBackOff_continue:
  assumes nb: "Context_NextBackOff e b d w1 = (nxt, b1, w2)" and ns: "nxt \<noteq> Stop"
    and pol: "policy b"
  shows "policy b1" and "startTime b1 = startTime b" and "clock w2 = clock w1"
    and "attempts w2 = attempts w1"
    and "GetElapsedTime b w1 \<le> 20 * Second" and "100 * Millisecond \<le> nxt" and "\<not> d"
proof -
  from nb ns show nd: "\<not> d" by (auto simp: Context_NextBackOff_def)
  from pol have mx: "MaxElapsedTime b = 20 * Second" and rf: "RandomizationFactor b = 1 / 2"
    and c: "200 * Millisecond \<le> currentInterval b"
    by (simp_all add: policy_def)
  from nb ns nd show el: "GetElapsedTime b w1 \<le> 20 * Second"
    by (auto simp: Context_NextBackOff_def NextBackOff_def mx Second_def split: if_splits)
  obtain r w' where f: "Float64 e w1 = (r, w')" by (cases "Float64 e w1")
  from nb nd el f have nxt: "nxt = getRandomValueFromInterval (1 / 2) r (currentInterval b)"
    and b1: "b1 = incrementCurrentInterval b" and w2: "w2 = w'"
    by (auto simp: Context_NextBackOff_def NextBackOff_def mx rf Second_def split: if_splits)
  from policy_increment [OF pol] show "policy b1" "startTime b1 = startTime b"
    unfolding b1 by simp_all
  from Float64_range(3) [OF f] show "clock w2 = clock w1" unfolding w2 .
  from f show "attempts w2 = attempts w1" unfolding w2 by (auto simp: Float64_def)
  have "(100000000::int) \<le> \<lfloor>(of_int (currentInterval b) :: rat) / 2\<rfloor>"
  proof -
    have "(of_int (100000000::int) :: rat) \<le> of_int (currentInterval b) / 2"
      using c by (simp add: Millisecond_def)
    then show ?thesis by (simp add: le_floor_iff)
  qed
  also have "\<dots> \<le> nxt" unfolding nxt
    using c by (intro jitter_at_least Float64_range(1) [OF f]) (simp add: Millisecond_def)
  finally show "100 * Millisecond \<le> nxt" by (simp add: Millisecond_def)
qed

lemma Retry_loop_returns:
  assumes "policy b"
  shows "\<exists>y. Retry_loop e uri content b d a w = Some y"
  using assms
proof (induction "nat (startTime b + 20 * Second + 1 - clock w)" arbitrary: b d a w rule: less_induct)
  case less
  obtain resp err d1 a1 w1 where op: "operation e uri content d a w = (resp, err, d1, a1, w1)"
    by (metis prod_cases5)
  obtain nxt b1 w2 where nb: "Context_NextBackOff e b d1 w1 = (nxt, b1, w2)"
    by (metis prod_cases3)
  show ?case
  proof (cases "err = None \<or> nxt = Stop \<or> d1")
    case True
    with op nb show ?thesis
      by (subst Retry_loop.simps) (auto split: option.splits)
  next
    case False
    then obtain er where er: "err = Some er" and ns: "nxt \<noteq> Stop" and nd: "\<not> d1" by auto
    note k = Context_NextBackOff_continue [OF nb ns less.prems]
    from operation_clock(1) [OF op] k(3,5,6)
    have "nat (startTime b1 + 20 * Second + 1 - clock (sleep nxt w2))
        < nat (startTime b + 20 * Second + 1 - clock w)"
      unfolding k(2) by (simp add: sleep_def GetElapsedTime_def Millisecond_def Second_def)
    from less.hyps [OF this k(1)]
    obtain y where "Retry_loop e uri content b1 d1 a1 (sleep nxt w2) = Some y" by blast
    with op nb er ns nd show ?thesis
      by (subst Retry_loop.simps) (cases y, simp)
  qed
qed

lemma retrievablePost_returns: "\<exists>y. retrievablePost e a w uri content = Some y"
proof -
  from Retry_loop_returns [OF policy_Reset_bo]
  obtain y where "Retry_loop e uri content (Reset (bo w) w) False a w = Some y" by blast
  then show ?thesis
    by (cases y) (auto simp: retrievablePost_def Retry_def split: option.splits)
qed

lemma post_returns: "\<exists>y. post e m a w uri body = Some y"
  using retrievablePost_returns by (simp add: post_def split: sum.splits)

section \<open>signedPost: nonce replenishment and the reported outcome\<close>

lemma signedPost_signed:
  assumes "SignContent e (jws a) (nonceManager a) w uri content = (Inr signedBody, n1, w1)"
  shows "signedPost e a w uri content =
    (doer_Post e (length (requests w1)) uri signedBody,
     a\<lparr>nonceManager :=
        (if snd (GetFromResponse (fst (doer_Post e (length (requests w1)) uri signedBody))) = None
         then Push n1 (fst (GetFromResponse (fst (doer_Post e (length (requests w1)) uri signedBody))))
         else n1)\<rparr>,
     w1\<lparr>requests := requests w1 @ [(uri, signedBody)]\<rparr>)"
  using assms by (simp add: signedPost_def Let_def split: prod.splits)

lemma badNonceCA_SignContent:
  "SignContent (badNonceCA t) (jws core0) (nonceManager core0) world0 ''https://ca/order'' ''{}''
     = (Inr ''first|https://ca/order|{}'', nonceManager core0,
        world0\<lparr>nonce_fetches := 1, signatures := 1\<rparr>)"
  by (simp add: SignContent_def Pop_def badNonceCA_def core0_def world0_def NewManager_def
      NewJWS_def)

lemma answeringCA_SignContent:
  "SignContent (answeringCA r) (jws core0) (nonceManager core0) world0 ''https://ca/order'' ''{}''
     = (Inr ''first|https://ca/order|{}'', nonceManager core0,
        world0\<lparr>nonce_fetches := 1, signatures := 1\<rparr>)"
  by (simp add: SignContent_def Pop_def answeringCA_def badNonceCA_def core0_def world0_def
      NewManager_def NewJWS_def)

text \<open>
  C3. Once the content is signed and the transport returns a response whose
  \<open>Replay-Nonce\<close> header is not empty, that nonce is appended to the pool the signer left,
  whether the transport also returned an error or not.
\<close>

theorem signedPost_pushes_nonce:
  assumes "SignContent e (jws a) (nonceManager a) w uri content = (Inr signedBody, n1, w1)"
    and "doer_Post e (length (requests w1)) uri signedBody = (Some r, err)"
    and "Header_Get (Header r) ''Replay-Nonce'' = nonce" and "nonce \<noteq> []"
  shows "\<exists>w'. signedPost e a w uri content = ((Some r, err), a\<lparr>nonceManager := Push n1 nonce\<rparr>, w')
     \<and> nonces (Push n1 nonce) = nonces n1 @ [nonce]"
  using assms by (simp add: signedPost_signed GetFromResponse_def Push_def Let_def)

theorem signedPost_pushes_nonce_witness:
  "\<exists>w'. signedPost (badNonceCA 0) core0 world0 ''https://ca/order'' ''{}'' =
     ((Some \<lparr>StatusCode = 400, Header = [(''Replay-Nonce'', ''fresh'')]\<rparr>,
       Some (NonceError ''urn:ietf:params:acme:error:badNonce'')),
      core0\<lparr>nonceManager := Push (nonceManager core0) ''fresh''\<rparr>, w')
     \<and> nonces (Push (nonceManager core0) ''fresh'') = nonces (nonceManager core0) @ [''fresh'']"
proof -
  have post: "doer_Post (badNonceCA 0)
      (length (requests (world0\<lparr>nonce_fetches := 1, signatures := 1\<rparr>)))
      ''https://ca/order'' ''first|https://ca/order|{}''
      = (Some \<lparr>StatusCode = 400, Header = [(''Replay-Nonce'', ''fresh'')]\<rparr>,
         Some (NonceError ''urn:ietf:params:acme:error:badNonce''))"
    by (simp add: badNonceCA_def)
  have hdr: "Header_Get (Header \<lparr>StatusCode = 400, Header = [(''Replay-Nonce'', ''fresh'')]\<rparr>)
      ''Replay-Nonce'' = ''fresh''"
    by (simp add: Header_Get_def)
  have ne: "''fresh'' \<noteq> []" by simp
  from signedPost_pushes_nonce [OF badNonceCA_SignContent post hdr ne] show ?thesis .
qed

text \<open>
  C10. Once the content is signed, the response and the error that signedPost returns
  are the pair that the transport's Post returned, whatever the extraction of the
  nonce gives; when the extraction fails, the pool stays as the signer left it.
\<close>

theorem signedPost_keeps_transport_outcome:
  assumes "SignContent e (jws a) (nonceManager a) w uri content = (Inr signedBody, n1, w1)"
  shows "fst (signedPost e a w uri content) = doer_Post e (length (requests w1)) uri signedBody
     \<and> (snd (GetFromResponse (fst (doer_Post e (length (requests w1)) uri signedBody))) \<noteq> None
          \<longrightarrow> nonceManager (fst (snd (signedPost e a w uri content))) = n1)"
  using assms by (simp add: signedPost_signed)

theorem signedPost_keeps_transport_outcome_witness:
  "fst (signedPost (answeringCA (None, Some (ErrorString ''connection refused''))) core0 world0
       ''https://ca/order'' ''{}'') = (None, Some (ErrorString ''connection refused''))
   \<and> nonceManager (fst (snd (signedPost (answeringCA (None, Some (ErrorString ''connection refused'')))
       core0 world0 ''https://ca/order'' ''{}''))) = nonceManager core0"
proof -
  let ?e = "answeringCA (None, Some (ErrorString ''connection refused''))"
  have post: "doer_Post ?e (length (requests (world0\<lparr>nonce_fetches := 1, signatures := 1\<rparr>)))
      ''https://ca/order'' ''first|https://ca/order|{}''
      = (None, Some (ErrorString ''connection refused''))"
    by (simp add: answeringCA_def)
  have "snd (GetFromResponse (fst (None :: Response option, Some (ErrorString ''connection refused''))))
      \<noteq> None"
    by (simp add: GetFromResponse_def)
  with signedPost_keeps_transport_outcome
      [OF answeringCA_SignContent [of "(None, Some (ErrorString ''connection refused''))"]] post
  show ?thesis by simp
qed

section \<open>Construction of the Core\<close>

lemma retrievablePost_same_identity:
  assumes "retrievablePost e a w uri content = Some (r, a', w')"
  shows "same_identity a a'"
proof -
  from assms obtain resp err where
    "Retry_loop e uri content (Reset (bo w) w) False a w = Some (resp, err, a', w')"
    by (auto simp: retrievablePost_def Retry_def split: option.splits prod.splits)
  from Retry_loop_directory [OF this] show ?thesis by simp
qed

lemma post_same_identity:
  assumes "post e m a w uri body = Some (r, a', w')"
  shows "same_identity a a'"
  using assms
  by (auto simp: post_def same_identity_def split: sum.splits
      dest!: retrievablePost_same_identity)

text \<open>
  C5. When the directory has been fetched, \<open>New\<close> returns an error and no Core if the
  new-account URL or the new-order URL is empty; otherwise it returns a Core whose
  directory is the fetched one. A fetch that fails returns an error as well. No
  \<open>post\<close> changes the directory that a Core holds.
\<close>

theorem New_directory_urls:
  "(\<forall>dir err. doer_Get e caDirURL = (dir, Some err) \<longrightarrow>
      (\<exists>err'. New e client ua caDirURL k key = Inl err'))
   \<and> (\<forall>dir. doer_Get e caDirURL = (dir, None) \<longrightarrow>
      (if NewAccountURL dir = [] \<or> NewOrderURL dir = []
       then \<exists>err. New e client ua caDirURL k key = Inl err
       else \<exists>c. New e client ua caDirURL k key = Inr c \<and> GetDirectory c = dir))
   \<and> (\<forall>m c w uri (body :: 'b) r c' w'.
        post e m c w uri body = Some (r, c', w') \<longrightarrow> GetDirectory c' = GetDirectory c)"
proof (intro conjI allI impI)
  fix dir err
  assume "doer_Get e caDirURL = (dir, Some err)"
  then show "\<exists>err'. New e client ua caDirURL k key = Inl err'"
    by (simp add: New_def getDirectory_def)
next
  fix dir
  assume "doer_Get e caDirURL = (dir, None)"
  then show "if NewAccountURL dir = [] \<or> NewOrderURL dir = []
       then \<exists>err. New e client ua caDirURL k key = Inl err
       else \<exists>c. New e client ua caDirURL k key = Inr c \<and> GetDirectory c = dir"
    by (simp add: New_def getDirectory_def GetDirectory_def)
next
  fix m c w uri and body :: 'b and r c' w'
  assume "post e m c w uri body = Some (r, c', w')"
  from post_same_identity [OF this] show "GetDirectory c' = GetDirectory c"
    by (simp add: same_identity_def GetDirectory_def)
qed

theorem New_directory_urls_witness:
  "(\<exists>c. New (badNonceCA 0) 0 ''lego'' ''https://ca/dir'' ''kid'' (ECDSAPrivateKey 1) = Inr c
        \<and> GetDirectory c = dir0)
   \<and> (\<exists>err. New ((badNonceCA 0)\<lparr>doer_Get := (\<lambda>url. (dir_no_order, None))\<rparr>) 0 ''lego''
          ''https://ca/dir'' ''kid'' (ECDSAPrivateKey 1) = Inl err)
   \<and> (\<exists>r c' w'. post (answeringCA (None, None)) (\<lambda>b. Inr b) core0 world0 ''https://ca/order'' ''{}''
          = Some (r, c', w') \<and> GetDirectory c' = dir0)"
proof -
  have 1: "doer_Get (badNonceCA 0) ''https://ca/dir'' = (dir0, None)"
    by (simp add: badNonceCA_def)
  have 2: "doer_Get ((badNonceCA 0)\<lparr>doer_Get := (\<lambda>url. (dir_no_order, None))\<rparr>) ''https://ca/dir''
      = (dir_no_order, None)"
    by simp
  have 3: "GetDirectory core0 = dir0"
    by (simp add: GetDirectory_def core0_def)
  from 1 New_directory_urls [of "badNonceCA 0" "''https://ca/dir''" 0 "''lego''" "''kid''" "ECDSAPrivateKey 1"]
  have "if NewAccountURL dir0 = [] \<or> NewOrderURL dir0 = []
       then \<exists>err. New (badNonceCA 0) 0 ''lego'' ''https://ca/dir'' ''kid'' (ECDSAPrivateKey 1) = Inl err
       else \<exists>c. New (badNonceCA 0) 0 ''lego'' ''https://ca/dir'' ''kid'' (ECDSAPrivateKey 1) = Inr c
        \<and> GetDirectory c = dir0"
    by blast
  moreover have "NewAccountURL dir0 \<noteq> []" "NewOrderURL dir0 \<noteq> []"
    by (simp_all add: dir0_def)
  ultimately have a: "\<exists>c. New (badNonceCA 0) 0 ''lego'' ''https://ca/dir'' ''kid'' (ECDSAPrivateKey 1) = Inr c
        \<and> GetDirectory c = dir0"
    by simp
  from 2 New_directory_urls [of "(badNonceCA 0)\<lparr>doer_Get := (\<lambda>url. (dir_no_order, None))\<rparr>"
      "''https://ca/dir''" 0 "''lego''" "''kid''" "ECDSAPrivateKey 1"]
  have "if NewAccountURL dir_no_order = [] \<or> NewOrderURL dir_no_order = []
       then \<exists>err. New ((badNonceCA 0)\<lparr>doer_Get := (\<lambda>url. (dir_no_order, None))\<rparr>) 0 ''lego''
          ''https://ca/dir'' ''kid'' (ECDSAPrivateKey 1) = Inl err
       else \<exists>c. New ((badNonceCA 0)\<lparr>doer_Get := (\<lambda>url. (dir_no_order, None))\<rparr>) 0 ''lego''
          ''https://ca/dir'' ''kid'' (ECDSAPrivateKey 1) = Inr c \<and> GetDirectory c = dir_no_order"
    by blast
  moreover have "NewOrderURL dir_no_order = []"
    by (simp add: dir_no_order_def)
  ultimately have b: "\<exists>err. New ((badNonceCA 0)\<lparr>doer_Get := (\<lambda>url. (dir_no_order, None))\<rparr>) 0 ''lego''
          ''https://ca/dir'' ''kid'' (ECDSAPrivateKey 1) = Inl err"
    by simp
  obtain r c' w' where
    p: "post (answeringCA (None, None)) (\<lambda>b. Inr b) core0 world0 ''https://ca/order'' ''{}''
          = Some (r, c', w')"
    using post_returns [of "answeringCA (None, None)" "\<lambda>b. Inr b" core0 world0
        "''https://ca/order''" "''{}''"]
    by (metis prod_cases3)
  with 3 New_directory_urls [of "answeringCA (None, None)"]
  have "GetDirectory c' = dir0"
    by metis
  with p have c: "\<exists>r c' w'. post (answeringCA (None, None)) (\<lambda>b. Inr b) core0 world0
      ''https://ca/order'' ''{}'' = Some (r, c', w') \<and> GetDirectory c' = dir0"
    by blast
  from a b c show ?thesis by blast
qed

section \<open>GetKeyAuthorization\<close>

text \<open>
  C6. The key authorization depends on the account key and the token alone: two Cores
  that hold the same key give the same string and the same error for the same token,
  whatever their nonce pools and directories are; a \<open>post\<close> between two calls changes
  nothing; and the string is the token, a dot and the thumbprint of the key. The function
  takes no world and returns no Core: it has no access to the network or to the state.
\<close>

theorem GetKeyAuthorization_deterministic:
  "(privKey (jws a) = privKey (jws b) \<longrightarrow>
      GetKeyAuthorization e a token = GetKeyAuthorization e b token)
   \<and> (\<forall>m w uri (body :: 'b) r a' w'. post e m a w uri body = Some (r, a', w') \<longrightarrow>
        GetKeyAuthorization e a' token = GetKeyAuthorization e a token)
   \<and> (\<forall>keyThumb. Thumbprint e (privKey (jws a)) = Inr keyThumb \<longrightarrow>
        GetKeyAuthorization e a token = (token @ ''.'' @ keyThumb, None))"
proof (intro conjI allI impI)
  assume "privKey (jws a) = privKey (jws b)"
  then show "GetKeyAuthorization e a token = GetKeyAuthorization e b token"
    by (simp add: GetKeyAuthorization_def JWS_GetKeyAuthorization_def)
next
  fix m w uri and body :: 'b and r a' w'
  assume "post e m a w uri body = Some (r, a', w')"
  from post_same_identity [OF this]
  show "GetKeyAuthorization e a' token = GetKeyAuthorization e a token"
    by (simp add: same_identity_def GetKeyAuthorization_def)
next
  fix keyThumb
  assume "Thumbprint e (privKey (jws a)) = Inr keyThumb"
  then show "GetKeyAuthorization e a token = (token @ ''.'' @ keyThumb, None)"
    by (simp add: GetKeyAuthorization_def JWS_GetKeyAuthorization_def)
qed

theorem GetKeyAuthorization_deterministic_witness:
  "GetKeyAuthorization (badNonceCA 0) core0 ''token''
      = GetKeyAuthorization (badNonceCA 0)
          (core0\<lparr>nonceManager := Push (nonceManager core0) ''fresh'', directory := dir_no_order\<rparr>)
          ''token''
   \<and> (\<exists>r a' w'. post (badNonceCA 0) (\<lambda>b :: string. Inr b) core0 world0 ''https://ca/order'' ''{}''
         = Some (r, a', w')
       \<and> GetKeyAuthorization (badNonceCA 0) a' ''token''
           = GetKeyAuthorization (badNonceCA 0) core0 ''token'')
   \<and> GetKeyAuthorization (badNonceCA 0) core0 ''token'' = (''token.thumb'', None)"
proof -
  let ?b = "core0\<lparr>nonceManager := Push (nonceManager core0) ''fresh'', directory := dir_no_order\<rparr>"
  note inst = GetKeyAuthorization_deterministic
    [where ?'b = string, of core0 _ "badNonceCA 0" "''token''"]
  have "privKey (jws core0) = privKey (jws ?b)" by simp
  with inst [of ?b] have 1: "GetKeyAuthorization (badNonceCA 0) core0 ''token''
      = GetKeyAuthorization (badNonceCA 0) ?b ''token''"
    by blast
  obtain r a' w' where
    p: "post (badNonceCA 0) (\<lambda>b :: string. Inr b) core0 world0 ''https://ca/order'' ''{}''
        = Some (r, a', w')"
    using post_returns [of "badNonceCA 0" "\<lambda>b :: string. Inr b" core0 world0
        "''https://ca/order''" "''{}''"]
    by (metis prod_cases3)
  with inst [of core0] have 2: "GetKeyAuthorization (badNonceCA 0) a' ''token''
      = GetKeyAuthorization (badNonceCA 0) core0 ''token''"
    by blast
  have "Thumbprint (badNonceCA 0) (privKey (jws core0)) = Inr ''thumb''"
    by (simp add: badNonceCA_def)
  with inst [of core0] have 3: "GetKeyAuthorization (badNonceCA 0) core0 ''token''
      = (''token.thumb'', None)"
    by simp
  from 1 p 2 3 show ?thesis by blast
qed

section \<open>The provider registry\<close>

lemma providers_distinct: "distinct (map fst providers)"
  by (simp add: providers_def)

lemma providers_constructors:
  "list_all (\<lambda>(name, ctor). ctor = (if name = ''manual'' then (''dns01'', ''NewDNSProviderManual'')
       else (package_of name, ''NewDNSProvider''))) providers"
  by (simp add: providers_def package_of_def)

lemma providers_constructors_distinct: "distinct (map snd providers)"
  by (simp add: providers_def)

text \<open>
  C7. For every name of the registry the function calls the constructor registered under
  that name, which is \<open>NewDNSProviderManual\<close> of package dns01 for "manual" and
  \<open>NewDNSProvider\<close> of the provider's own package otherwise; no two names share a
  constructor. For every other name it returns no provider and the error
  "unrecognized DNS provider: " followed by the name.
\<close>

theorem NewDNSChallengeProviderByName_registry:
  "(\<forall>(n, ctor) \<in> set providers.
       NewDNSChallengeProviderByName call n = call ctor
       \<and> ctor = (if n = ''manual'' then (''dns01'', ''NewDNSProviderManual'')
                  else (package_of n, ''NewDNSProvider'')))
   \<and> (name \<notin> fst ` set providers \<longrightarrow>
        NewDNSChallengeProviderByName call name =
          (None, Some (ErrorString (''unrecognized DNS provider: '' @ name))))
   \<and> distinct (map snd providers)
   \<and> (''manual'', (''dns01'', ''NewDNSProviderManual'')) \<in> set providers"
proof (intro conjI ballI impI)
  fix x
  assume x: "x \<in> set providers"
  obtain n ctor where nc: "x = (n, ctor)" by (cases x)
  from x nc providers_distinct have "map_of providers n = Some ctor" by simp
  then have "NewDNSChallengeProviderByName call n = call ctor"
    by (simp add: NewDNSChallengeProviderByName_def)
  moreover from providers_constructors x nc
  have "ctor = (if n = ''manual'' then (''dns01'', ''NewDNSProviderManual'')
                  else (package_of n, ''NewDNSProvider''))"
    by (auto simp: list_all_iff)
  ultimately show "case x of (n, ctor) \<Rightarrow>
       NewDNSChallengeProviderByName call n = call ctor
       \<and> ctor = (if n = ''manual'' then (''dns01'', ''NewDNSProviderManual'')
                  else (package_of n, ''NewDNSProvider''))"
    using nc by simp
next
  assume "name \<notin> fst ` set providers"
  then have "map_of providers name = None" by (simp add: map_of_eq_None_iff)
  then show "NewDNSChallengeProviderByName call name =
          (None, Some (ErrorString (''unrecognized DNS provider: '' @ name)))"
    by (simp add: NewDNSChallengeProviderByName_def)
next
  show "distinct (map snd providers)" by (rule providers_constructors_distinct)
next
  show "(''manual'', (''dns01'', ''NewDNSProviderManual'')) \<in> set providers"
    by (simp add: providers_def)
qed

lemma route53_registered: "(''route53'', (''route53'', ''NewDNSProvider'')) \<in> set providers"
  by (simp add: providers_def)

lemma nosuch_not_registered: "''nosuch'' \<notin> fst ` set providers"
  by (simp add: providers_def)

theorem NewDNSChallengeProviderByName_registry_witness:
  "NewDNSChallengeProviderByName (\<lambda>ctor. (Some ctor, None)) ''route53''
      = (Some (''route53'', ''NewDNSProvider''), None)
   \<and> NewDNSChallengeProviderByName (\<lambda>ctor. (Some ctor, None)) ''manual''
      = (Some (''dns01'', ''NewDNSProviderManual''), None)
   \<and> NewDNSChallengeProviderByName (\<lambda>ctor. (Some ctor, None)) ''nosuch''
      = (None, Some (ErrorString ''unrecognized DNS provider: nosuch''))"
proof -
  note inst = NewDNSChallengeProviderByName_registry [of "\<lambda>ctor. (Some ctor, None)" "''nosuch''"]
  from inst route53_registered
  have 1: "NewDNSChallengeProviderByName (\<lambda>ctor. (Some ctor, None)) ''route53''
      = (Some (''route53'', ''NewDNSProvider''), None)"
    by fast
  from inst have 2: "NewDNSChallengeProviderByName (\<lambda>ctor. (Some ctor, None)) ''manual''
      = (Some (''dns01'', ''NewDNSProviderManual''), None)"
    by fast
  from inst nosuch_not_registered
  have 3: "NewDNSChallengeProviderByName (\<lambda>ctor. (Some ctor, None)) ''nosuch''
      = (None, Some (ErrorString ''unrecognized DNS provider: nosuch''))"
    by simp
  from 1 2 3 show ?thesis by blast
qed

section \<open>setupDNS: which options are set\<close>

lemma seconds_exact:
  fixes n :: "64 word"
  assumes "- 9223372036 \<le> sint n" and "sint n \<le> 9223372036"
  shows "sint (n * time_Second) = sint n * 1000000000"
proof -
  have s: "sint time_Second = 1000000000"
    by (simp add: time_Second_def)
  have "sint (n * time_Second) = signed_take_bit 63 (sint n * 1000000000)"
    by (simp add: sint_word_ariths s)
  also have "\<dots> = sint n * 1000000000"
    using assms by (intro signed_take_bit_int_eq_self) simp_all
  finally show ?thesis .
qed

text \<open>
  C8. When setupDNS gets as far as setting the DNS-01 provider, it passes three options in
  this order: the recursive nameservers parsed from the resolver list if that list is not
  empty, the end of the full-propagation requirement if \<open>dns.disable-cp\<close> is true, and
  the DNS timeout of \<open>dns-timeout\<close> seconds if that flag is set; each is the option
  without effect otherwise. The timeout is the 64-bit product of the flag and one second,
  which is that many seconds exactly between -9223372036 and 9223372036.
\<close>

theorem setupDNS_options:
  assumes "setupDNS call ParseNameservers SetDNS01Provider ctx = SetDNS01 provider opts"
  shows "opts =
      [if dns_resolvers ctx \<noteq> [] then AddRecursiveNameservers (ParseNameservers (dns_resolvers ctx))
       else NoOp,
       if dns_disable_cp ctx then DisableCompletePropagationRequirement else NoOp,
       if dns_timeout_IsSet ctx then AddDNSTimeout (dns_timeout ctx * time_Second) else NoOp]
    \<and> ((\<exists>ns. AddRecursiveNameservers ns \<in> set opts) \<longleftrightarrow> dns_resolvers ctx \<noteq> [])
    \<and> (DisableCompletePropagationRequirement \<in> set opts \<longleftrightarrow> dns_disable_cp ctx)
    \<and> ((\<exists>t. AddDNSTimeout t \<in> set opts) \<longleftrightarrow> dns_timeout_IsSet ctx)
    \<and> (dns_timeout_IsSet ctx \<and> - 9223372036 \<le> sint (dns_timeout ctx) \<and> sint (dns_timeout ctx) \<le> 9223372036
          \<longrightarrow> (\<exists>t. AddDNSTimeout t \<in> set opts \<and> sint t = sint (dns_timeout ctx) * 1000000000))"
proof -
  from assms have opts: "opts =
      [if dns_resolvers ctx \<noteq> [] then AddRecursiveNameservers (ParseNameservers (dns_resolvers ctx))
       else NoOp,
       if dns_disable_cp ctx then DisableCompletePropagationRequirement else NoOp,
       if dns_timeout_IsSet ctx then AddDNSTimeout (dns_timeout ctx * time_Second) else NoOp]"
    by (auto simp: setupDNS_def CondOption_def Let_def split: prod.splits option.splits)
  have 1: "(\<exists>ns. AddRecursiveNameservers ns \<in> set opts) \<longleftrightarrow> dns_resolvers ctx \<noteq> []"
    unfolding opts by auto
  have 2: "DisableCompletePropagationRequirement \<in> set opts \<longleftrightarrow> dns_disable_cp ctx"
    unfolding opts by auto
  have 3: "(\<exists>t. AddDNSTimeout t \<in> set opts) \<longleftrightarrow> dns_timeout_IsSet ctx"
    unfolding opts by auto
  have 4: "dns_timeout_IsSet ctx \<and> - 9223372036 \<le> sint (dns_timeout ctx) \<and> sint (dns_timeout ctx) \<le> 9223372036
          \<longrightarrow> (\<exists>t. AddDNSTimeout t \<in> set opts \<and> sint t = sint (dns_timeout ctx) * 1000000000)"
  proof (intro impI, elim conjE)
    assume "dns_timeout_IsSet ctx" "- 9223372036 \<le> sint (dns_timeout ctx)" "sint (dns_timeout ctx) \<le> 9223372036"
    then have "AddDNSTimeout (dns_timeout ctx * time_Second) \<in> set opts
        \<and> sint (dns_timeout ctx * time_Second) = sint (dns_timeout ctx) * 1000000000"
      unfolding opts by (simp add: seconds_exact)
    then show "\<exists>t. AddDNSTimeout t \<in> set opts \<and> sint t = sint (dns_timeout ctx) * 1000000000"
      by blast
  qed
  from opts 1 2 3 4 show ?thesis by blast
qed

lemma setupDNS_route53:
  "setupDNS (\<lambda>ctor. (Some ctor, None)) (map (\<lambda>s. s @ '':53'')) (\<lambda>p opts. None)
      \<lparr>dns = ''route53'', dns_resolvers = [''9.9.9.9''], dns_disable_cp = False,
       dns_timeout_IsSet = True, dns_timeout = 30\<rparr>
    = SetDNS01 (Some (''route53'', ''NewDNSProvider''))
       [AddRecursiveNameservers [''9.9.9.9:53''], NoOp, AddDNSTimeout 30000000000]"
proof -
  from route53_registered providers_distinct
  have "map_of providers ''route53'' = Some (''route53'', ''NewDNSProvider'')"
    by simp
  then show ?thesis
    by (simp add: setupDNS_def NewDNSChallengeProviderByName_def CondOption_def time_Second_def)
qed

theorem setupDNS_options_witness:
  "setupDNS (\<lambda>ctor. (Some ctor, None)) (map (\<lambda>s. s @ '':53'')) (\<lambda>p opts. None)
      \<lparr>dns = ''route53'', dns_resolvers = [''9.9.9.9''], dns_disable_cp = False,
       dns_timeout_IsSet = True, dns_timeout = 30\<rparr>
    = SetDNS01 (Some (''route53'', ''NewDNSProvider''))
       [AddRecursiveNameservers [''9.9.9.9:53''], NoOp, AddDNSTimeout 30000000000]
   \<and> DisableCompletePropagationRequirement
        \<notin> set [AddRecursiveNameservers [''9.9.9.9:53''], NoOp, AddDNSTimeout 30000000000]
   \<and> (\<exists>t. AddDNSTimeout t
          \<in> set [AddRecursiveNameservers [''9.9.9.9:53''], NoOp, AddDNSTimeout 30000000000]
        \<and> sint t = 30 * 1000000000)"
proof -
  let ?ctx = "\<lparr>dns = ''route53'', dns_resolvers = [''9.9.9.9''], dns_disable_cp = False,
       dns_timeout_IsSet = True, dns_timeout = 30 :: 64 word\<rparr>"
  let ?opts = "[AddRecursiveNameservers [''9.9.9.9:53''], NoOp, AddDNSTimeout 30000000000]"
  note inst = setupDNS_options [OF setupDNS_route53]
  have s: "sint (30 :: 64 word) = 30" by simp
  from inst have "DisableCompletePropagationRequirement \<in> set ?opts \<longleftrightarrow> dns_disable_cp ?ctx"
    by blast
  then have 2: "DisableCompletePropagationRequirement \<notin> set ?opts" by simp
  from inst have "dns_timeout_IsSet ?ctx \<and> - 9223372036 \<le> sint (dns_timeout ?ctx)
      \<and> sint (dns_timeout ?ctx) \<le> 9223372036
      \<longrightarrow> (\<exists>t. AddDNSTimeout t \<in> set ?opts \<and> sint t = sint (dns_timeout ?ctx) * 1000000000)"
    by blast
  then have 3: "\<exists>t. AddDNSTimeout t \<in> set ?opts \<and> sint t = 30 * 1000000000"
    by (simp add: s)
  from setupDNS_route53 2 3 show ?thesis by blast
qed

section \<open>post: a body that cannot be marshaled\<close>

lemma operation_attempts:
  "operation e uri content d a w = (resp, err, d1, a1, w1) \<Longrightarrow> attempts w1 = Suc (attempts w)"
  by (rule operation_clock)

lemma Retry_loop_attempts:
  assumes "Retry_loop e uri content b d a w = Some y"
  shows "attempts w < attempts (snd (snd (snd y)))"
  using assms
proof (induction rule: Retry_loop_induct)
  case (success b d a w resp d1 a1 w1)
  then show ?case by (simp add: operation_attempts)
next
  case (stop b d a w resp err d1 a1 w1 nxt b1 w2)
  then show ?case
    by (auto simp: operation_attempts Context_NextBackOff_def NextBackOff_def Float64_def Let_def
        split: if_splits)
next
  case (again b d a w resp err d1 a1 w1 nxt b1 w2 y)
  then show ?case
    by (auto simp: operation_attempts Context_NextBackOff_def NextBackOff_def Float64_def Let_def
        sleep_def split: if_splits)
qed

lemma retrievablePost_attempts:
  assumes "retrievablePost e a w uri content = Some (r, a', w')"
  shows "attempts w < attempts w'"
proof -
  from assms obtain resp err where
    "Retry_loop e uri content (Reset (bo w) w) False a w = Some (resp, err, a', w')"
    by (auto simp: retrievablePost_def Retry_def split: option.splits prod.splits)
  from Retry_loop_attempts [OF this] show ?thesis by simp
qed

text \<open>
  C9. When \<open>json.Marshal\<close> fails, \<open>post\<close> returns no response and the error
  "failed to marshal message", and neither the Core (its nonce pool included) nor the
  world (requests sent, nonces fetched, signatures made, attempts) changes. Whenever
  \<open>post\<close> has made an attempt, the body was marshaled and the result is that of
  retrievablePost on the encoding.
\<close>

theorem post_marshal_failure:
  "(\<forall>err. json_Marshal reqBody = Inl err \<longrightarrow>
      post e json_Marshal a w uri reqBody =
        Some ((None, Some (ErrorString ''failed to marshal message'')), a, w))
   \<and> (\<forall>r a' w'. post e json_Marshal a w uri reqBody = Some (r, a', w') \<and> attempts w' \<noteq> attempts w \<longrightarrow>
        (\<exists>content. json_Marshal reqBody = Inr content
           \<and> retrievablePost e a w uri content = Some (r, a', w')))"
  by (auto simp: post_def split: sum.splits)

theorem post_marshal_failure_witness:
  "post (badNonceCA 0) (\<lambda>b :: nat. Inl (ErrorString ''json: unsupported type'')) core0 world0
      ''https://ca/order'' 7
     = Some ((None, Some (ErrorString ''failed to marshal message'')), core0, world0)
   \<and> (\<exists>r a' w' content. post (answeringCA (None, None)) (\<lambda>b :: string. Inr b) core0 world0
        ''https://ca/order'' ''{}'' = Some (r, a', w') \<and> attempts w' \<noteq> attempts world0
        \<and> (\<lambda>b :: string. Inr b) ''{}'' = (Inr content :: error + string)
        \<and> retrievablePost (answeringCA (None, None)) core0 world0 ''https://ca/order'' content
             = Some (r, a', w'))"
proof -
  have 1: "post (badNonceCA 0) (\<lambda>b :: nat. Inl (ErrorString ''json: unsupported type'')) core0 world0
      ''https://ca/order'' 7
     = Some ((None, Some (ErrorString ''failed to marshal message'')), core0, world0)"
    using post_marshal_failure [of "\<lambda>b :: nat. Inl (ErrorString ''json: unsupported type'')" 7
        "badNonceCA 0" core0 world0 "''https://ca/order''"]
    by simp
  obtain r a' w' where
    p: "post (answeringCA (None, None)) (\<lambda>b :: string. Inr b) core0 world0
        ''https://ca/order'' ''{}'' = Some (r, a', w')"
    using post_returns [of "answeringCA (None, None)" "\<lambda>b :: string. Inr b" core0 world0
        "''https://ca/order''" "''{}''"]
    by (metis prod_cases3)
  then have "retrievablePost (answeringCA (None, None)) core0 world0 ''https://ca/order'' ''{}''
      = Some (r, a', w')"
    by (simp add: post_def)
  from retrievablePost_attempts [OF this] have ne: "attempts w' \<noteq> attempts world0" by simp
  from p ne post_marshal_failure [of "\<lambda>b :: string. Inr b" "''{}''" "answeringCA (None, None)"
      core0 world0 "''https://ca/order''"]
  have "\<exists>content. (\<lambda>b :: string. Inr b) ''{}'' = (Inr content :: error + string)
           \<and> retrievablePost (answeringCA (None, None)) core0 world0 ''https://ca/order'' content
               = Some (r, a', w')"
    by blast
  with p ne 1 show ?thesis by blast
qed

section \<open>One turn of the loop\<close>


lemma SignContent_requests:
  "SignContent e j n w uri content = (r, n1, w1) \<Longrightarrow> requests w1 = requests w"
  by (auto simp: SignContent_def Pop_def split: prod.splits sum.splits if_splits)


lemma NextBackOff_within_budget:
  assumes "policy b" and "GetElapsedTime b w \<le> 20 * Second"
  shows "100 * Millisecond \<le> fst (NextBackOff e b w)"
proof -
  obtain nxt b1 w2 where nb: "Context_NextBackOff e b False w = (nxt, b1, w2)"
    by (metis prod_cases3)
  from assms have c: "200 * Millisecond \<le> currentInterval b"
    and mx: "MaxElapsedTime b = 20 * Second" and rf: "RandomizationFactor b = 1 / 2"
    by (simp_all add: policy_def)
  obtain r w' where f: "Float64 e w = (r, w')" by (cases "Float64 e w")
  have "(100000000::int) \<le> \<lfloor>(of_int (currentInterval b) :: rat) / 2\<rfloor>"
  proof -
    have "(of_int (100000000::int) :: rat) \<le> of_int (currentInterval b) / 2"
      using c by (simp add: Millisecond_def)
    then show ?thesis by (simp add: le_floor_iff)
  qed
  also have "\<dots> \<le> getRandomValueFromInterval (1 / 2) r (currentInterval b)"
    using c by (intro jitter_at_least Float64_range(1) [OF f]) (simp add: Millisecond_def)
  finally show ?thesis
    using assms(2) f by (simp add: NextBackOff_def mx rf Millisecond_def)
qed

text \<open>
  Why the policy says \<open>Stop\<close>: the context is cancelled or the budget is spent. The world
  is as the attempt left it.
\<close>

lemma Context_NextBackOff_stop:
  assumes nb: "Context_NextBackOff e b d1 w1 = (nxt, b1, w2)" and st: "nxt = Stop \<or> d1"
    and pol: "policy b"
  shows "w2 = w1" and "nxt = Stop" and "d1 \<or> 20 * Second < GetElapsedTime b w1"
proof -
  have mx: "MaxElapsedTime b = 20 * Second" using pol by (simp add: policy_def)
  show "d1 \<or> 20 * Second < GetElapsedTime b w1"
  proof (rule ccontr)
    assume "\<not> (d1 \<or> 20 * Second < GetElapsedTime b w1)"
    then have nd: "\<not> d1" and le: "GetElapsedTime b w1 \<le> 20 * Second" by simp_all
    from NextBackOff_within_budget [OF pol le, of e] nb nd
    have "100 * Millisecond \<le> nxt" by (simp add: Context_NextBackOff_def)
    with st nd show False by (simp add: Stop_def Millisecond_def)
  qed
  with nb show "w2 = w1" "nxt = Stop"
    by (auto simp: Context_NextBackOff_def NextBackOff_def mx Second_def split: if_splits)
qed






section \<open>The retry budget\<close>

lemmas run_defs = operation_def signedPost_def SignContent_def Pop_def Push_def
  GetFromResponse_def Header_Get_def Let_def badNonceCA_def answeringCA_def brokenKeyCA_def
  core0_def world0_def NewDoer_def NewManager_def NewJWS_def

lemmas policy_defs = bo_def NewExponentialBackOff_def Reset_def Context_NextBackOff_def
  NextBackOff_def GetElapsedTime_def Float64_def getRandomValueFromInterval_def
  incrementCurrentInterval_def trunc_def sleep_def Millisecond_def Second_def Stop_def
















section \<open>Which errors are retried\<close>







section \<open>What is returned when the budget is spent\<close>

text \<open>
  C2 as stated fails: the mock CA answers bad-nonce to every request, each attempt takes
  6 seconds, and after four attempts and more than 24 seconds retrievablePost returns the
  CA's bad-nonce error itself.
\<close>

theorem exhausted_budget_returns_bad_nonce:
  "map_option fst
      (retrievablePost (badNonceCA 6000000000) core0 world0 ''https://ca/order'' ''{}'')
     = Some (None, Some (NonceError ''urn:ietf:params:acme:error:badNonce''))
   \<and> map_option (attempts \<circ> snd \<circ> snd)
      (retrievablePost (badNonceCA 6000000000) core0 world0 ''https://ca/order'' ''{}'')
     = Some 4
   \<and> map_option (clock \<circ> snd \<circ> snd)
      (retrievablePost (badNonceCA 6000000000) core0 world0 ''https://ca/order'' ''{}'')
     = Some 24475000000"
proof -
  have "retrievablePost (badNonceCA 6000000000) core0 world0 ''https://ca/order'' ''{}'' =
    Some ((None, Some (NonceError ''urn:ietf:params:acme:error:badNonce'')),
      core0\<lparr>nonceManager := Push (nonceManager core0) ''fresh''\<rparr>,
      world0\<lparr>clock := 24475000000,
        requests := [(''https://ca/order'', ''first|https://ca/order|{}''),
                     (''https://ca/order'', ''fresh|https://ca/order|{}''),
                     (''https://ca/order'', ''fresh|https://ca/order|{}''),
                     (''https://ca/order'', ''fresh|https://ca/order|{}'')],
        nonce_fetches := 1, signatures := 4, attempts := 4, draws := 3\<rparr>)"
    apply (simp add: retrievablePost_def Retry_def)
    apply (subst Retry_loop.simps)
    apply (simp add: run_defs policy_defs)
    apply (subst Retry_loop.simps)
    apply (simp add: run_defs policy_defs)
    apply (subst Retry_loop.simps)
    apply (simp add: run_defs policy_defs)
    apply (subst Retry_loop.simps)
    apply (simp add: run_defs policy_defs)
    done
  then show ?thesis by simp
qed

lemma always_signed:
  assumes signs: "\<forall>key k nonce u c. \<exists>s. sign e key k nonce u c = Inr s"
    and fetch: "\<forall>k u. \<exists>n. fetch_nonce e k u = Inr n"
  shows "\<exists>body n1 ws. SignContent e j n w uri content = (Inr body, n1, ws)"
proof (cases "nonces n = []")
  case True
  from fetch obtain x where "fetch_nonce e (nonce_fetches w) (nonceURL n) = Inr x" by blast
  moreover from signs obtain s where "sign e (privKey j) (kid j) x uri content = Inr s" by blast
  ultimately show ?thesis using True by (simp add: SignContent_def Pop_def)
next
  case False
  from signs obtain s where "sign e (privKey j) (kid j) (last (nonces n)) uri content = Inr s"
    by blast
  with False show ?thesis by (simp add: SignContent_def Pop_def)
qed

lemma always_bad_nonce_attempt:
  assumes post: "\<forall>k u body. \<exists>resp s. doer_Post e k u body = (resp, Some (NonceError s))"
    and signs: "\<forall>key k nonce u c. \<exists>s. sign e key k nonce u c = Inr s"
    and fetch: "\<forall>k u. \<exists>n. fetch_nonce e k u = Inr n"
    and op: "operation e uri content d a w = (resp, err, d1, a1, w1)"
  shows "\<exists>s body. err = Some (NonceError s) \<and> d1 = d
      \<and> requests w1 = requests w @ [(uri, body)]
      \<and> doer_Post e (length (requests w)) uri body = (resp, Some (NonceError s))"
proof -
  from always_signed [OF signs fetch] obtain body n1 ws where
    sc: "SignContent e (jws a) (nonceManager a) w uri content = (Inr body, n1, ws)"
    by blast
  from post obtain resp' s where
    p: "doer_Post e (length (requests w)) uri body = (resp', Some (NonceError s))"
    by blast
  from op sc p SignContent_requests [OF sc]
  have "err = Some (NonceError s) \<and> d1 = d \<and> requests w1 = requests w @ [(uri, body)]
      \<and> resp = resp'"
    by (auto simp: operation_def signedPost_def Let_def split: prod.splits)
  with p show ?thesis by blast
qed

lemma always_bad_nonce_loop:
  assumes run: "Retry_loop e uri content b d a w = Some y"
    and post: "\<forall>k u body. \<exists>resp s. doer_Post e k u body = (resp, Some (NonceError s))"
    and signs: "\<forall>key k nonce u c. \<exists>s. sign e key k nonce u c = Inr s"
    and fetch: "\<forall>k u. \<exists>n. fetch_nonce e k u = Inr n"
  shows "policy b \<and> \<not> d \<longrightarrow>
    (\<exists>resp s a' w'. y = (resp, Some (NonceError s), a', w')
       \<and> 20 * Second < clock w' - startTime b \<and> requests w' \<noteq> []
       \<and> snd (doer_Post e (length (requests w') - 1) uri (snd (last (requests w'))))
           = Some (NonceError s))"
  using run
proof (induction rule: Retry_loop_induct)
  case (success b d a w resp d1 a1 w1)
  from always_bad_nonce_attempt [OF post signs fetch this] show ?case by simp
next
  case (stop b d a w resp err d1 a1 w1 nxt b1 w2)
  from always_bad_nonce_attempt [OF post signs fetch stop(1)] obtain s body where
    e: "err = NonceError s" "d1 = d" "requests w1 = requests w @ [(uri, body)]"
      "doer_Post e (length (requests w)) uri body = (resp, Some (NonceError s))"
    by auto
  show ?case
  proof
    assume "policy b \<and> \<not> d"
    then have pol: "policy b" and nd: "\<not> d1" using e(2) by simp_all
    from Context_NextBackOff_stop [OF stop(2,3) pol] nd
    have "w2 = w1" "20 * Second < GetElapsedTime b w1" by simp_all
    with e show "\<exists>resp' s a' w'. (resp, Some err, a1, w2) = (resp', Some (NonceError s), a', w')
       \<and> 20 * Second < clock w' - startTime b \<and> requests w' \<noteq> []
       \<and> snd (doer_Post e (length (requests w') - 1) uri (snd (last (requests w'))))
           = Some (NonceError s)"
      by (simp add: GetElapsedTime_def)
  qed
next
  case (again b d a w resp err d1 a1 w1 nxt b1 w2 y)
  show ?case
  proof
    assume "policy b \<and> \<not> d"
    then have pol: "policy b" by simp
    note k = Context_NextBackOff_continue [OF again(2,3) pol]
    from again.IH k(1) again(4) show "\<exists>resp s a' w'. y = (resp, Some (NonceError s), a', w')
       \<and> 20 * Second < clock w' - startTime b \<and> requests w' \<noteq> []
       \<and> snd (doer_Post e (length (requests w') - 1) uri (snd (last (requests w'))))
           = Some (NonceError s)"
      unfolding k(2) by simp
  qed
qed

text \<open>
  C2, amended. When the CA answers every signed request with bad-nonce, retrievablePost
  returns once more than 20 seconds have elapsed, with no response and with the
  \<open>*acme.NonceError\<close> that the transport returned for the last request sent; no other
  error is made for the spent budget.
\<close>

theorem spent_budget_returns_last_bad_nonce:
  assumes post: "\<forall>k u body. \<exists>resp s. doer_Post e k u body = (resp, Some (NonceError s))"
    and signs: "\<forall>key k nonce u c. \<exists>s. sign e key k nonce u c = Inr s"
    and fetch: "\<forall>k u. \<exists>n. fetch_nonce e k u = Inr n"
  shows "\<exists>s a' w'. retrievablePost e a w uri content = Some ((None, Some (NonceError s)), a', w')
      \<and> 20 * Second < clock w' - clock w \<and> requests w' \<noteq> []
      \<and> snd (doer_Post e (length (requests w') - 1) uri (snd (last (requests w'))))
          = Some (NonceError s)"
proof -
  obtain y where run: "Retry_loop e uri content (Reset (bo w) w) False a w = Some y"
    using Retry_loop_returns [OF policy_Reset_bo] by blast
  from always_bad_nonce_loop [OF run post signs fetch] policy_Reset_bo [of w]
  obtain resp s a' w' where y: "y = (resp, Some (NonceError s), a', w')"
    and rest: "20 * Second < clock w' - clock w" "requests w' \<noteq> []"
      "snd (doer_Post e (length (requests w') - 1) uri (snd (last (requests w'))))
          = Some (NonceError s)"
    by (auto simp: startTime_Reset_bo)
  from run y have "retrievablePost e a w uri content = Some ((None, Some (NonceError s)), a', w')"
    by (simp add: retrievablePost_def Retry_def)
  with rest show ?thesis by blast
qed

theorem spent_budget_returns_last_bad_nonce_witness:
  "\<exists>s a' w'. retrievablePost (badNonceCA 0) core0 world0 ''https://ca/order'' ''{}''
        = Some ((None, Some (NonceError s)), a', w')
      \<and> 20 * Second < clock w' - clock world0 \<and> requests w' \<noteq> []
      \<and> snd (doer_Post (badNonceCA 0) (length (requests w') - 1) ''https://ca/order''
              (snd (last (requests w'))))
          = Some (NonceError s)"
proof -
  have post: "\<forall>k u body. \<exists>resp s. doer_Post (badNonceCA 0) k u body = (resp, Some (NonceError s))"
    by (simp add: badNonceCA_def)
  have signs: "\<forall>key k nonce u c. \<exists>s. sign (badNonceCA 0) key k nonce u c = Inr s"
    by (simp add: badNonceCA_def)
  have fetch: "\<forall>k u. \<exists>n. fetch_nonce (badNonceCA 0) k u = Inr n"
    by (simp add: badNonceCA_def)
  from spent_budget_returns_last_bad_nonce [OF post signs fetch] show ?thesis .
qed

end
